theory Spec2Isabelle
  imports Complex_Main "HOL-Library.Sublist"
begin

section \<open>The API client of \<open>src/api_client.py\<close>\<close>

text \<open>
  The module is embedded function by function. Wall-clock readings (\<open>time.time()\<close>) are
  real numbers: the floats of the source are idealised, and a reading is an explicit
  argument (\<open>now\<close>) of the limiter's methods and a field (\<open>clock\<close>) of the executor's
  world. Suspending (\<open>time.sleep\<close>, \<open>asyncio.sleep\<close>) advances the clock by the
  requested duration and is logged, with the time at which it starts, in a trace; so
  is every transport call, which takes the time its outcome states. Everything else
  takes no time.
\<close>

subsection \<open>Strings and dictionaries of the Python runtime\<close>

text \<open>\<open>s.rstrip(chars)\<close> and \<open>s.lstrip(chars)\<close>.\<close>

definition rstrip :: "string \<Rightarrow> string \<Rightarrow> string" where
  "rstrip chars s = rev (dropWhile (\<lambda>c. c \<in> set chars) (rev s))"

definition lstrip :: "string \<Rightarrow> string \<Rightarrow> string" where
  "lstrip chars s = dropWhile (\<lambda>c. c \<in> set chars) s"

text \<open>\<open>needle in haystack\<close> on strings: the needle occurs as a contiguous run.\<close>

fun str_in :: "string \<Rightarrow> string \<Rightarrow> bool" where
  "str_in needle [] = (needle = [])"
| "str_in needle (c # cs) = (prefix needle (c # cs) \<or> str_in needle cs)"

text \<open>
  A \<open>Dict[str, str]\<close> is an association list with distinct keys in insertion order;
  \<open>d[k] = v\<close> keeps the position of a key already there, \<open>{**a, **b}\<close> stores the items
  of \<open>b\<close> into a copy of \<open>a\<close>, and \<open>d.get(k, default)\<close> reads.
\<close>

type_synonym dict = "(string \<times> string) list"

fun dict_set :: "dict \<Rightarrow> string \<Rightarrow> string \<Rightarrow> dict" where
  "dict_set [] k v = [(k, v)]"
| "dict_set ((k', v') # d) k v = (if k' = k then (k, v) # d else (k', v') # dict_set d k v)"

definition dict_merge :: "dict \<Rightarrow> dict \<Rightarrow> dict" where
  "dict_merge a b = fold (\<lambda>(k, v) d. dict_set d k v) b a"

definition dict_get :: "dict \<Rightarrow> string \<Rightarrow> string \<Rightarrow> string" where
  "dict_get d k dflt = (case map_of d k of None \<Rightarrow> dflt | Some v \<Rightarrow> v)"

subsection \<open>Data\<close>

text \<open>
  \<open>'j\<close> is the type of decoded JSON values (request bodies, query parameters and decoded
  response bodies). A response body that was not decoded is text.
\<close>

datatype 'j payload = Json 'j | Text string

text \<open>The dataclass \<open>APIResponse\<close>; \<open>data = None\<close> and \<open>error = None\<close> are \<open>None\<close>.\<close>

record 'j APIResponse =
  status_code :: int
  data :: "'j payload option"
  headers :: dict
  response_time :: real
  success :: bool
  error :: "string option"

text \<open>
  The source defines no exception class of its own and no constructor raises; the
  type of constructor failures has the one member the specification names.
\<close>

datatype exn = ConfigurationError

record RateLimiter =
  max_requests :: int
  time_window :: int
  requests :: "real list"

text \<open>
  The fields of \<open>APIClient\<close> that no method writes. Its \<open>rate_limiter\<close>, the one
  object a request mutates, lives in the world below; \<open>session\<close> says whether
  \<open>self.session\<close> is set (the client was entered as an async context manager).
\<close>

record APIClient =
  base_url :: string
  timeout :: int
  retries :: int
  auth_token :: "string option"
  session :: bool
  default_headers :: dict

text \<open>The keyword arguments of \<open>session.request\<close> and \<open>requests.request\<close>.\<close>

record 'j request =
  req_method :: string
  req_url :: string
  req_json :: "'j option"
  req_headers :: dict
  req_params :: "'j option"

text \<open>
  What a transport hands back: status, headers and the undecoded body. Header names
  are spelled as the client looks them up (the libraries compare them without regard
  to case).
\<close>

record response =
  status :: int
  resp_headers :: dict
  body :: string

text \<open>
  One transport call either yields a response or raises; \<open>Raises msg\<close> carries
  \<open>str(e)\<close> of the exception. Both take some time. A transport is a function of the
  request and of the number of calls made before it.
\<close>

datatype outcome = Responds response real | Raises string real

type_synonym 'j transport = "'j request \<Rightarrow> nat \<Rightarrow> outcome"

text \<open>
  The JSON decoders of the two HTTP libraries, which are not part of the repository:
  \<open>await response.json()\<close> of aiohttp (\<open>Inl msg\<close>: it raises, \<open>msg\<close> is \<open>str(e)\<close>) and
  \<open>response.json()\<close> of requests (\<open>None\<close>: it raises \<open>json.JSONDecodeError\<close>).
\<close>

record 'j codec =
  aio_json :: "response \<Rightarrow> string + 'j"
  req_json_decode :: "response \<Rightarrow> 'j option"

datatype 'j event = Transport "'j request" | TimeSleep real | AsyncioSleep real

record 'j world =
  clock :: real
  rate_limiter :: RateLimiter
  calls :: nat
  trace :: "(real \<times> 'j event) list"

subsection \<open>\<open>RateLimiter\<close>\<close>

definition RateLimiter_init :: "int \<Rightarrow> int \<Rightarrow> exn + RateLimiter" where
  "RateLimiter_init max_req window =
     Inr \<lparr>max_requests = max_req, time_window = window, requests = []\<rparr>"

text \<open>
  \<open>can_proceed\<close>: the comprehension keeps the timestamps younger than the window;
  \<open>now\<close> is appended on admission only.
\<close>

definition can_proceed :: "real \<Rightarrow> RateLimiter \<Rightarrow> bool \<times> RateLimiter" where
  "can_proceed now rl =
     (let kept = filter (\<lambda>req_time. now - req_time < real_of_int (time_window rl)) (requests rl)
      in if int (length kept) < max_requests rl
         then (True, rl\<lparr>requests := kept @ [now]\<rparr>)
         else (False, rl\<lparr>requests := kept\<rparr>))"

text \<open>\<open>wait_time\<close>; \<open>min(self.requests)\<close> of a non-empty list is a fold of \<open>min\<close>.\<close>

definition wait_time :: "real \<Rightarrow> RateLimiter \<Rightarrow> real \<times> RateLimiter" where
  "wait_time now rl =
     (case requests rl of
        [] \<Rightarrow> (0, rl)
      | r # rs \<Rightarrow>
          (let oldest_request = fold min rs r
           in (max 0 (real_of_int (time_window rl) - (now - oldest_request)), rl)))"

text \<open>A run of \<open>can_proceed\<close> calls at the given clock readings.\<close>

fun can_proceed_calls :: "real list \<Rightarrow> RateLimiter \<Rightarrow> bool list \<times> RateLimiter" where
  "can_proceed_calls [] rl = ([], rl)"
| "can_proceed_calls (t # ts) rl =
     (case can_proceed t rl of (b, rl') \<Rightarrow>
        (case can_proceed_calls ts rl' of (bs, rl'') \<Rightarrow> (b # bs, rl'')))"

subsection \<open>\<open>APIClient\<close>\<close>

definition APIClient_init ::
  "string \<Rightarrow> int \<Rightarrow> int \<Rightarrow> int \<Rightarrow> string option \<Rightarrow> exn + (APIClient \<times> RateLimiter)" where
  "APIClient_init base timeout' retries' rate_limit token =
     (case RateLimiter_init rate_limit 60 of
        Inl e \<Rightarrow> Inl e
      | Inr rl \<Rightarrow>
          (let hdrs = [(''Content-Type'', ''application/json''),
                       (''Accept'', ''application/json''),
                       (''User-Agent'', ''TaaP-Test-Client/1.0'')];
               hdrs' = (case token of
                          None \<Rightarrow> hdrs
                        | Some t \<Rightarrow> if t = [] then hdrs
                                    else dict_set hdrs ''Authorization'' (''Bearer '' @ t))
           in Inr (\<lparr>base_url = rstrip ''/'' base, timeout = timeout', retries = retries',
                     auth_token = token, session = False, default_headers = hdrs'\<rparr>, rl)))"

text \<open>\<open>__aenter__\<close> sets the session.\<close>

definition aenter :: "APIClient \<Rightarrow> APIClient" where
  "aenter c = c\<lparr>session := True\<rparr>"

definition time_sleep :: "real \<Rightarrow> 'j world \<Rightarrow> 'j world" where
  "time_sleep d w = w\<lparr>clock := clock w + d, trace := trace w @ [(clock w, TimeSleep d)]\<rparr>"

definition asyncio_sleep :: "real \<Rightarrow> 'j world \<Rightarrow> 'j world" where
  "asyncio_sleep d w = w\<lparr>clock := clock w + d, trace := trace w @ [(clock w, AsyncioSleep d)]\<rparr>"

text \<open>\<open>_apply_rate_limit\<close>.\<close>

definition apply_rate_limit :: "'j world \<Rightarrow> 'j world" where
  "apply_rate_limit w =
     (case can_proceed (clock w) (rate_limiter w) of
        (True, rl) \<Rightarrow> w\<lparr>rate_limiter := rl\<rparr>
      | (False, rl) \<Rightarrow>
          (case wait_time (clock w) rl of
             (wt, rl') \<Rightarrow>
               (let w' = w\<lparr>rate_limiter := rl'\<rparr>
                in if wt > 0 then time_sleep wt w' else w')))"

text \<open>\<open>_parse_response\<close> (aiohttp): a decoding failure propagates to the caller.\<close>

definition parse_response :: "'j codec \<Rightarrow> response \<Rightarrow> string + 'j payload" where
  "parse_response lib r =
     (let content_type = dict_get (resp_headers r) ''Content-Type'' ''''
      in if str_in ''application/json'' content_type
         then (case aio_json lib r of Inl msg \<Rightarrow> Inl msg | Inr j \<Rightarrow> Inr (Json j))
         else Inr (Text (body r)))"

text \<open>\<open>_parse_sync_response\<close> (requests): a decoding failure falls back to the text.\<close>

definition parse_sync_response :: "'j codec \<Rightarrow> response \<Rightarrow> 'j payload" where
  "parse_sync_response lib r =
     (let content_type = dict_get (resp_headers r) ''Content-Type'' ''''
      in if str_in ''application/json'' content_type
         then (case req_json_decode lib r of Some j \<Rightarrow> Json j | None \<Rightarrow> Text (body r))
         else Text (body r))"

text \<open>
  The body of the \<open>try\<close> block of \<open>_make_request\<close>, one attempt: \<open>Inl msg\<close> when an
  exception reaches the \<open>except\<close> clause, \<open>Inr\<close> the returned \<open>APIResponse\<close>.
\<close>

definition try_attempt ::
  "'j codec \<Rightarrow> 'j transport \<Rightarrow> APIClient \<Rightarrow> 'j request \<Rightarrow> real \<Rightarrow> 'j world
     \<Rightarrow> (string + 'j APIResponse) \<times> 'j world" where
  "try_attempt lib tr c rq start_time w =
     (let w1 = apply_rate_limit w;
          w2 = w1\<lparr>calls := Suc (calls w1), trace := trace w1 @ [(clock w1, Transport rq)]\<rparr>
      in case tr rq (calls w1) of
           Raises msg d \<Rightarrow> (Inl msg, w2\<lparr>clock := clock w2 + d\<rparr>)
         | Responds r d \<Rightarrow>
             (let w3 = w2\<lparr>clock := clock w2 + d\<rparr>
              in if session c
                 then (case parse_response lib r of
                         Inl msg \<Rightarrow> (Inl msg, w3)
                       | Inr response_data \<Rightarrow>
                           (Inr \<lparr>status_code = status r, data = Some response_data,
                                 headers = resp_headers r,
                                 response_time = clock w3 - start_time,
                                 success = (status r < 400), error = None\<rparr>, w3))
                 else (Inr \<lparr>status_code = status r,
                            data = Some (parse_sync_response lib r),
                            headers = resp_headers r,
                            response_time = clock w3 - start_time,
                            success = (status r < 400), error = None\<rparr>, w3)))"

text \<open>
  The loop \<open>for attempt in range(self.retries + 1)\<close> from index \<open>attempt\<close> on, and the
  return after it.
\<close>

function request_loop ::
  "'j codec \<Rightarrow> 'j transport \<Rightarrow> APIClient \<Rightarrow> 'j request \<Rightarrow> real \<Rightarrow> int \<Rightarrow> string option
     \<Rightarrow> 'j world \<Rightarrow> 'j APIResponse \<times> 'j world" where
  "request_loop lib tr c rq start_time attempt last_error w =
     (if attempt < retries c + 1
      then (case try_attempt lib tr c rq start_time w of
              (Inr resp, w') \<Rightarrow> (resp, w')
            | (Inl msg, w') \<Rightarrow>
                request_loop lib tr c rq start_time (attempt + 1) (Some msg)
                  (if attempt < retries c then asyncio_sleep (2 ^ nat attempt) w' else w'))
      else (\<lparr>status_code = 0, data = None, headers = [],
              response_time = clock w - start_time, success = False,
              error = last_error\<rparr>, w))"
  by pat_completeness auto
termination
  by (relation "measure (\<lambda>(lib, tr, c, rq, start_time, attempt, last_error, w).
        nat (retries c + 1 - attempt))") auto

declare request_loop.simps [simp del]

text \<open>Lines 113 and 114 and the arguments both request calls are given.\<close>

definition build_request ::
  "APIClient \<Rightarrow> string \<Rightarrow> string \<Rightarrow> 'j option \<Rightarrow> dict option \<Rightarrow> 'j option \<Rightarrow> 'j request" where
  "build_request c method endpoint data' headers' params =
     \<lparr>req_method = method,
      req_url = base_url c @ ''/'' @ lstrip ''/'' endpoint,
      req_json = data',
      req_headers = dict_merge (default_headers c) (case headers' of None \<Rightarrow> [] | Some h \<Rightarrow> h),
      req_params = params\<rparr>"

definition make_request ::
  "'j codec \<Rightarrow> 'j transport \<Rightarrow> APIClient \<Rightarrow> string \<Rightarrow> string \<Rightarrow> 'j option \<Rightarrow> dict option
     \<Rightarrow> 'j option \<Rightarrow> 'j world \<Rightarrow> 'j APIResponse \<times> 'j world" where
  "make_request lib tr c method endpoint data' headers' params w =
     request_loop lib tr c (build_request c method endpoint data' headers' params)
       (clock w) 0 None w"

subsection \<open>Observations on a run\<close>

text \<open>
  The trace without the rate limiter's own sleeps: transport calls and backoff
  suspensions, in the order they happen.
\<close>

definition is_rate_limit_sleep :: "'j event \<Rightarrow> bool" where
  "is_rate_limit_sleep e = (case e of TimeSleep d \<Rightarrow> True | _ \<Rightarrow> False)"

definition attempts_and_backoffs :: "(real \<times> 'j event) list \<Rightarrow> 'j event list" where
  "attempts_and_backoffs es = filter (\<lambda>e. \<not> is_rate_limit_sleep e) (map snd es)"

text \<open>The URLs of the transport calls in a list of events.\<close>

fun transport_urls :: "'j event list \<Rightarrow> string list" where
  "transport_urls [] = []"
| "transport_urls (Transport rq # es) = req_url rq # transport_urls es"
| "transport_urls (TimeSleep d # es) = transport_urls es"
| "transport_urls (AsyncioSleep d # es) = transport_urls es"

text \<open>
  The transport calls that lie in the limiter's window at the reading \<open>now\<close>, by the
  test of \<open>can_proceed\<close>: started no later than \<open>now\<close> and less than \<open>W\<close> before it.
\<close>

definition transports_in_window :: "real \<Rightarrow> real \<Rightarrow> (real \<times> 'j event) list \<Rightarrow> nat" where
  "transports_in_window W now es =
     length (filter (\<lambda>(t, e). t \<le> now \<and> now - t < W
                       \<and> (case e of Transport rq \<Rightarrow> True | _ \<Rightarrow> False)) es)"

text \<open>
  What reaches the \<open>except\<close> clause of an attempt whose transport call has the given
  outcome: the transport's exception, or on the session path the exception of
  \<open>_parse_response\<close>.
\<close>

definition attempt_error :: "'j codec \<Rightarrow> APIClient \<Rightarrow> outcome \<Rightarrow> string option" where
  "attempt_error lib c out =
     (case out of
        Raises msg d \<Rightarrow> Some msg
      | Responds r d \<Rightarrow>
          if session c
          then (case parse_response lib r of Inl msg \<Rightarrow> Some msg | Inr p \<Rightarrow> None)
          else None)"

text \<open>
  The events of a run of the loop that starts at attempt \<open>a\<close> and makes \<open>k\<close> failing
  attempts before its last one: each failing attempt is followed by its backoff.
\<close>

definition backoff_schedule :: "'j request \<Rightarrow> nat \<Rightarrow> nat \<Rightarrow> 'j event list" where
  "backoff_schedule rq a k =
     concat (map (\<lambda>i. [Transport rq, AsyncioSleep (2 ^ (a + i))]) [0..<k]) @ [Transport rq]"

text \<open>
  What such a run leaves behind: the number of calls, the events, and the envelope,
  decided by the outcome of the last attempt.
\<close>

definition run_post ::
  "'j codec \<Rightarrow> 'j transport \<Rightarrow> APIClient \<Rightarrow> 'j request \<Rightarrow> real \<Rightarrow> nat \<Rightarrow> nat \<Rightarrow> 'j world
     \<Rightarrow> 'j APIResponse \<times> 'j world \<Rightarrow> bool" where
  "run_post lib tr c rq st a k w res \<longleftrightarrow>
     calls (snd res) = calls w + k + 1
     \<and> attempts_and_backoffs (trace (snd res))
         = attempts_and_backoffs (trace w) @ backoff_schedule rq a k
     \<and> response_time (fst res) = clock (snd res) - st
     \<and> (case attempt_error lib c (tr rq (calls w + k)) of
          Some msg \<Rightarrow>
            status_code (fst res) = 0 \<and> data (fst res) = None \<and> headers (fst res) = []
            \<and> \<not> success (fst res) \<and> error (fst res) = Some msg
        | None \<Rightarrow>
            (\<exists>r d. tr rq (calls w + k) = Responds r d \<and> status_code (fst res) = status r
               \<and> headers (fst res) = resp_headers r \<and> success (fst res) = (status r < 400)
               \<and> error (fst res) = None
               \<and> data (fst res) = Some (if session c
                    then (case parse_response lib r of Inr p \<Rightarrow> p | Inl m \<Rightarrow> Text m)
                    else parse_sync_response lib r)))"

text \<open>
  The time a transport call takes, and the timeline of a list of events: starting
  with \<open>n\<close> calls made and the clock at \<open>t\<close>, every event begins exactly when the one
  before it is over (a sleep after its duration, a transport call after the time its
  outcome takes), and the result is the number of calls and the clock at the end;
  \<open>None\<close> when some event begins at another time. \<open>elapses\<close> says that the events a
  step adds to the trace form such a timeline from its first world to its last.
\<close>

definition outcome_time :: "outcome \<Rightarrow> real" where
  "outcome_time out = (case out of Responds r d \<Rightarrow> d | Raises msg d \<Rightarrow> d)"

fun timeline :: "'j transport \<Rightarrow> nat \<times> real \<Rightarrow> (real \<times> 'j event) list \<Rightarrow> (nat \<times> real) option" where
  "timeline tr (n, t) [] = Some (n, t)"
| "timeline tr (n, t) ((t', e) # es) =
     (if t' = t
      then (case e of
              Transport rq \<Rightarrow> timeline tr (Suc n, t + outcome_time (tr rq n)) es
            | TimeSleep d \<Rightarrow> timeline tr (n, t + d) es
            | AsyncioSleep d \<Rightarrow> timeline tr (n, t + d) es)
      else None)"

definition elapses :: "'j transport \<Rightarrow> 'j world \<Rightarrow> 'j world \<Rightarrow> bool" where
  "elapses tr w w' \<longleftrightarrow>
     (\<exists>es. trace w' = trace w @ es
           \<and> timeline tr (calls w, clock w) es = Some (calls w', clock w'))"

subsection \<open>Sample transports, clients and decoders\<close>

text \<open>
  A transport with one outcome for every call; the client and the initial world (clock
  0, nothing sent) built by a constructor call; a decoder, the same for both
  libraries, that accepts the empty JSON object only.
\<close>

definition always :: "outcome \<Rightarrow> 'j transport" where
  "always out = (\<lambda>rq n. out)"

definition client_of :: "exn + (APIClient \<times> RateLimiter) \<Rightarrow> APIClient" where
  "client_of made = fst (projr made)"

definition world_of :: "exn + (APIClient \<times> RateLimiter) \<Rightarrow> 'j world" where
  "world_of made = \<lparr>clock = 0, rate_limiter = snd (projr made), calls = 0, trace = []\<rparr>"

definition braces_codec :: "string codec" where
  "braces_codec =
     \<lparr>aio_json = (\<lambda>r. if body r = ''{}'' then Inr ''{}'' else Inl ''Expecting value''),
      req_json_decode = (\<lambda>r. if body r = ''{}'' then Some ''{}'' else None)\<rparr>"

definition ok_transport :: "string transport" where
  "ok_transport = always (Responds \<lparr>status = 200, resp_headers = [], body = ''ok''\<rparr> 0)"

definition limit_one_client :: APIClient where
  "limit_one_client = client_of (APIClient_init ''http://x'' 30 3 1 None)"

lemmas eval_defs =
  make_request_def build_request_def request_loop.simps try_attempt_def
  apply_rate_limit_def can_proceed_def wait_time_def time_sleep_def asyncio_sleep_def
  parse_response_def parse_sync_response_def dict_get_def dict_merge_def
  APIClient_init_def RateLimiter_init_def rstrip_def lstrip_def aenter_def
  always_def client_of_def world_of_def braces_codec_def Let_def

section \<open>The sliding window of the rate limiter\<close>

lemma can_proceed_calls_append:
  "can_proceed_calls (ts @ us) rl =
     (case can_proceed_calls ts rl of (bs, rl') \<Rightarrow>
        (case can_proceed_calls us rl' of (cs, rl'') \<Rightarrow> (bs @ cs, rl'')))"
  by (induction ts arbitrary: rl) (auto split: prod.splits)

lemma filter_window_all:
  "\<forall>s \<in> set rs. now - s < W \<Longrightarrow> filter (\<lambda>req_time. now - req_time < W) rs = rs"
  by (induction rs) auto

lemma filter_window_none:
  "\<forall>s \<in> set rs. W \<le> now - s \<Longrightarrow> filter (\<lambda>req_time. now - req_time < (W::real)) rs = []"
  by (induction rs) auto

text \<open>
  While the limiter has room and all readings lie within one window of each other,
  every call is admitted and nothing is pruned.
\<close>

lemma can_proceed_calls_admit:
  assumes "int (length rs + length ts) \<le> max_requests rl"
    and "\<forall>s \<in> set rs \<union> set ts. \<forall>s' \<in> set rs \<union> set ts. s - s' < real_of_int (time_window rl)"
    and "requests rl = rs"
  shows "can_proceed_calls ts rl = (replicate (length ts) True, rl\<lparr>requests := rs @ ts\<rparr>)"
  using assms
proof (induction ts arbitrary: rs rl)
  case Nil
  then show ?case by simp
next
  case (Cons t ts)
  have kept: "filter (\<lambda>req_time. t - req_time < real_of_int (time_window rl)) rs = rs"
    using Cons.prems(2) by (intro filter_window_all) auto
  have lt: "int (length rs) < max_requests rl"
    using Cons.prems(1) by simp
  have step: "can_proceed t rl = (True, rl\<lparr>requests := rs @ [t]\<rparr>)"
    using kept lt Cons.prems(3) by (simp add: can_proceed_def)
  have "can_proceed_calls ts (rl\<lparr>requests := rs @ [t]\<rparr>) =
          (replicate (length ts) True, rl\<lparr>requests := rs @ [t]\<rparr>\<lparr>requests := (rs @ [t]) @ ts\<rparr>)"
    using Cons.prems(1,2) by (intro Cons.IH) auto
  with step show ?case by simp
qed

text \<open>
  Claim C2. A limiter with \<open>max_requests = N > 0\<close>, \<open>time_window = W > 0\<close> and no
  timestamps admits \<open>N\<close> calls made in quick succession (at readings \<open>ts\<close> that lie
  within one window of each other, in particular at one instant), refuses call
  \<open>N + 1\<close> at a reading \<open>t\<close> still within the window of all of them and leaves the
  recorded timestamps as they are, and admits the next call at a reading \<open>t'\<close> that is
  at least \<open>W\<close> later, when only \<open>t'\<close> remains recorded. Every call, at any state,
  keeps exactly the timestamps younger than the window and appends the reading
  exactly when it admits.
\<close>

theorem can_proceed_window:
  assumes "0 < max_requests rl" and "0 < time_window rl" and "requests rl = []"
    and "length ts = nat (max_requests rl)"
    and "\<forall>s \<in> set ts. \<forall>s' \<in> set ts. s - s' < real_of_int (time_window rl)"
    and "\<forall>s \<in> set ts. t - s < real_of_int (time_window rl)"
    and "\<forall>s \<in> set ts. real_of_int (time_window rl) \<le> t' - s"
  shows "can_proceed_calls (ts @ [t, t']) rl =
           (replicate (nat (max_requests rl)) True @ [False, True], rl\<lparr>requests := [t']\<rparr>)
         \<and> can_proceed_calls (ts @ [t]) rl =
           (replicate (nat (max_requests rl)) True @ [False], rl\<lparr>requests := ts\<rparr>)
         \<and> requests (snd (can_proceed now rl')) =
             filter (\<lambda>r. now - r < real_of_int (time_window rl')) (requests rl')
               @ (if fst (can_proceed now rl') then [now] else [])"
proof -
  have run: "can_proceed_calls ts rl =
               (replicate (nat (max_requests rl)) True, rl\<lparr>requests := ts\<rparr>)"
    using can_proceed_calls_admit [of "[]" ts rl] assms(1,3,4,5) by simp
  have keep: "filter (\<lambda>req_time. t - req_time < real_of_int (time_window rl)) ts = ts"
    using assms(6) by (intro filter_window_all) auto
  have full: "\<not> int (length ts) < max_requests rl"
    using assms(1,4) by simp
  have deny: "can_proceed t (rl\<lparr>requests := ts\<rparr>) = (False, rl\<lparr>requests := ts\<rparr>)"
    using keep full by (simp add: can_proceed_def)
  have drop: "filter (\<lambda>req_time. t' - req_time < real_of_int (time_window rl)) ts = []"
    using assms(7) by (intro filter_window_none) auto
  have again: "can_proceed t' (rl\<lparr>requests := ts\<rparr>) = (True, rl\<lparr>requests := [t']\<rparr>)"
    using drop assms(1) by (simp add: can_proceed_def)
  have a: "can_proceed_calls (ts @ [t, t']) rl =
           (replicate (nat (max_requests rl)) True @ [False, True], rl\<lparr>requests := [t']\<rparr>)"
    using run deny again by (simp add: can_proceed_calls_append)
  have b: "can_proceed_calls (ts @ [t]) rl =
           (replicate (nat (max_requests rl)) True @ [False], rl\<lparr>requests := ts\<rparr>)"
    using run deny by (simp add: can_proceed_calls_append)
  have c: "requests (snd (can_proceed now rl')) =
             filter (\<lambda>r. now - r < real_of_int (time_window rl')) (requests rl')
               @ (if fst (can_proceed now rl') then [now] else [])"
    by (simp add: can_proceed_def Let_def)
  from a b c show ?thesis by blast
qed

theorem can_proceed_window_witness:
  "can_proceed_calls ([0, 0] @ [0, 60]) \<lparr>max_requests = 2, time_window = 60, requests = []\<rparr> =
     (replicate (nat 2) True @ [False, True], \<lparr>max_requests = 2, time_window = 60, requests = [60]\<rparr>)"
  using can_proceed_window [of "\<lparr>max_requests = 2, time_window = 60, requests = []\<rparr>" "[0, 0]" 0 60]
  by simp

lemma fold_min_Min: "fold min rs (r::real) = Min (set (r # rs))"
  using Min.set_eq_fold [of r rs] by simp

text \<open>
  Claim C8. \<open>wait_time\<close> returns 0 when no timestamp is recorded and otherwise
  \<open>max(0, time_window - (now - oldest))\<close>, \<open>oldest\<close> being the least recorded
  timestamp; it returns the limiter as it received it; and at a later reading, with
  the same recorded timestamps, it returns no more than before.
\<close>

theorem wait_time_spec:
  "wait_time now rl =
     ((if requests rl = [] then 0
       else max 0 (real_of_int (time_window rl) - (now - Min (set (requests rl))))), rl)
   \<and> (now \<le> now' \<longrightarrow> fst (wait_time now' rl) \<le> fst (wait_time now rl))"
  by (cases "requests rl") (auto simp: wait_time_def Let_def fold_min_Min)

theorem wait_time_spec_witness:
  "fst (wait_time 20 \<lparr>max_requests = 2, time_window = 60, requests = [5, 3]\<rparr>)
     \<le> fst (wait_time 10 \<lparr>max_requests = 2, time_window = 60, requests = [5, 3]\<rparr>)
   \<and> wait_time 10 \<lparr>max_requests = 2, time_window = 60, requests = [5, 3]\<rparr>
       = (53, \<lparr>max_requests = 2, time_window = 60, requests = [5, 3]\<rparr>)"
  using wait_time_spec [of 10 "\<lparr>max_requests = 2, time_window = 60, requests = [5, 3]\<rparr>" 20]
  by (simp add: wait_time_def)

section \<open>One attempt and the retry loop\<close>

text \<open>
  The rate-limit step makes no transport call and adds nothing but its own sleep to
  the trace; an attempt makes exactly one call, and fails exactly when
  \<open>attempt_error\<close> says so.
\<close>

lemma calls_apply_rate_limit [simp]: "calls (apply_rate_limit w) = calls w"
  by (simp add: apply_rate_limit_def time_sleep_def wait_time_def Let_def
           split: prod.splits bool.splits list.splits)

lemma core_apply_rate_limit [simp]:
  "attempts_and_backoffs (trace (apply_rate_limit w)) = attempts_and_backoffs (trace w)"
  by (simp add: apply_rate_limit_def time_sleep_def wait_time_def Let_def
        attempts_and_backoffs_def is_rate_limit_sleep_def
           split: prod.splits bool.splits list.splits)

lemma calls_try_attempt [simp]:
  "calls (snd (try_attempt lib tr c rq st w)) = Suc (calls w)"
  by (simp add: try_attempt_def Let_def split: outcome.splits sum.splits)

lemma core_try_attempt [simp]:
  "attempts_and_backoffs (trace (snd (try_attempt lib tr c rq st w)))
     = attempts_and_backoffs (trace w) @ [Transport rq]"
proof -
  have "attempts_and_backoffs (trace (apply_rate_limit w) @ [(clock (apply_rate_limit w), Transport rq)])
          = attempts_and_backoffs (trace w) @ [Transport rq]"
    using core_apply_rate_limit [of w]
    by (simp add: attempts_and_backoffs_def is_rate_limit_sleep_def)
  then show ?thesis
    by (simp add: try_attempt_def Let_def split: outcome.splits sum.splits)
qed

lemma try_attempt_Inl:
  "fst (try_attempt lib tr c rq st w) = Inl msg
     \<longleftrightarrow> attempt_error lib c (tr rq (calls w)) = Some msg"
  by (simp add: try_attempt_def attempt_error_def Let_def split: outcome.splits sum.splits)

lemma try_attempt_Inr:
  assumes "fst (try_attempt lib tr c rq st w) = Inr resp"
  shows "\<exists>r d. tr rq (calls w) = Responds r d \<and> status_code resp = status r
           \<and> headers resp = resp_headers r \<and> success resp = (status r < 400)
           \<and> error resp = None
           \<and> response_time resp = clock (snd (try_attempt lib tr c rq st w)) - st
           \<and> data resp = Some (if session c
                 then (case parse_response lib r of Inr p \<Rightarrow> p | Inl m \<Rightarrow> Text m)
                 else parse_sync_response lib r)"
  using assms
  by (auto simp add: try_attempt_def Let_def split: outcome.splits sum.splits if_splits)

text \<open>The three ways through one iteration of the loop.\<close>

lemma request_loop_done:
  "\<not> a < retries c + 1 \<Longrightarrow>
     request_loop lib tr c rq st a le w =
       (\<lparr>status_code = 0, data = None, headers = [], response_time = clock w - st,
         success = False, error = le\<rparr>, w)"
  by (subst request_loop.simps) simp

lemma request_loop_ok:
  "a < retries c + 1 \<Longrightarrow> try_attempt lib tr c rq st w = (Inr resp, w') \<Longrightarrow>
     request_loop lib tr c rq st a le w = (resp, w')"
  by (subst request_loop.simps) simp

lemma request_loop_retry:
  "a < retries c + 1 \<Longrightarrow> try_attempt lib tr c rq st w = (Inl msg, w') \<Longrightarrow>
     request_loop lib tr c rq st a le w =
       request_loop lib tr c rq st (a + 1) (Some msg)
         (if a < retries c then asyncio_sleep (2 ^ nat a) w' else w')"
  by (subst request_loop.simps) simp

lemma backoff_schedule_Suc:
  "backoff_schedule rq a (Suc k) =
     [Transport rq, AsyncioSleep (2 ^ a)] @ backoff_schedule rq (Suc a) k"
proof -
  have "map (\<lambda>i. [Transport rq, AsyncioSleep (2 ^ (a + i))]) [0..<Suc k]
          = [Transport rq, AsyncioSleep (2 ^ a)]
            # map (\<lambda>i. [Transport rq, AsyncioSleep (2 ^ (Suc a + i))]) [0..<k]"
    by (simp add: upt_conv_Cons map_Suc_upt [symmetric] del: upt_Suc)
  then show ?thesis
    by (simp add: backoff_schedule_def del: upt_Suc)
qed

text \<open>
  A run from attempt \<open>a\<close> in which the next \<open>k\<close> attempts fail and attempt \<open>a + k\<close>
  either succeeds or is the last one allowed. By induction on \<open>k\<close>, the world and the
  attempt index generalised.
\<close>

lemma request_loop_run:
  assumes "0 \<le> a" and "a + int k \<le> retries c"
    and "\<forall>i<k. attempt_error lib c (tr rq (calls w + i)) \<noteq> None"
    and "a + int k = retries c \<or> attempt_error lib c (tr rq (calls w + k)) = None"
  shows "run_post lib tr c rq st (nat a) k w (request_loop lib tr c rq st a le w)"
  using assms
proof (induction k arbitrary: a le w)
  case 0
  obtain x w' where ta: "try_attempt lib tr c rq st w = (x, w')"
    by (cases "try_attempt lib tr c rq st w")
  have lt: "a < retries c + 1" using "0.prems" by simp
  have w': "calls w' = Suc (calls w)"
     "attempts_and_backoffs (trace w') = attempts_and_backoffs (trace w) @ [Transport rq]"
    using calls_try_attempt [of lib tr c rq st w] core_try_attempt [of lib tr c rq st w] ta
    by simp_all
  show ?case
  proof (cases x)
    case (Inr resp)
    have none: "attempt_error lib c (tr rq (calls w)) = None"
    proof (cases "attempt_error lib c (tr rq (calls w))")
      case None then show ?thesis .
    next
      case (Some m)
      then have "fst (try_attempt lib tr c rq st w) = Inl m" by (simp add: try_attempt_Inl)
      with ta Inr show ?thesis by simp
    qed
    have "fst (try_attempt lib tr c rq st w) = Inr resp" using ta Inr by simp
    from try_attempt_Inr [OF this] ta
    have post: "\<exists>r d. tr rq (calls w) = Responds r d \<and> status_code resp = status r
           \<and> headers resp = resp_headers r \<and> success resp = (status r < 400)
           \<and> error resp = None \<and> response_time resp = clock w' - st
           \<and> data resp = Some (if session c
                 then (case parse_response lib r of Inr p \<Rightarrow> p | Inl m \<Rightarrow> Text m)
                 else parse_sync_response lib r)"
      by simp
    have "request_loop lib tr c rq st a le w = (resp, w')"
      using lt ta Inr by (simp add: request_loop_ok)
    then show ?thesis
      using w' none post by (auto simp: run_post_def backoff_schedule_def)
  next
    case (Inl msg)
    then have err: "attempt_error lib c (tr rq (calls w)) = Some msg"
      using ta try_attempt_Inl [of lib tr c rq st w msg] by simp
    with "0.prems" have last: "a = retries c" by simp
    have "request_loop lib tr c rq st a le w = request_loop lib tr c rq st (a + 1) (Some msg) w'"
      using lt ta Inl last by (simp add: request_loop_retry)
    also have "\<dots> = (\<lparr>status_code = 0, data = None, headers = [], response_time = clock w' - st,
         success = False, error = Some msg\<rparr>, w')"
      using last by (simp add: request_loop_done)
    finally show ?thesis
      using w' err by (simp add: run_post_def backoff_schedule_def)
  qed
next
  case (Suc k)
  have lt: "a < retries c" using Suc.prems by simp
  have "attempt_error lib c (tr rq (calls w)) \<noteq> None"
    using Suc.prems(3) by (metis add.right_neutral zero_less_Suc)
  then obtain msg where err: "attempt_error lib c (tr rq (calls w)) = Some msg" by auto
  obtain x w' where ta: "try_attempt lib tr c rq st w = (x, w')"
    by (cases "try_attempt lib tr c rq st w")
  have x: "x = Inl msg"
    using err ta try_attempt_Inl [of lib tr c rq st w msg] by simp
  have w': "calls w' = Suc (calls w)"
     "attempts_and_backoffs (trace w') = attempts_and_backoffs (trace w) @ [Transport rq]"
    using calls_try_attempt [of lib tr c rq st w] core_try_attempt [of lib tr c rq st w] ta
    by simp_all
  let ?w'' = "asyncio_sleep (2 ^ nat a) w'"
  have w'': "calls ?w'' = Suc (calls w)"
     "attempts_and_backoffs (trace ?w'')
        = attempts_and_backoffs (trace w) @ [Transport rq, AsyncioSleep (2 ^ nat a)]"
    using w' by (simp_all add: asyncio_sleep_def attempts_and_backoffs_def is_rate_limit_sleep_def)
  have step: "request_loop lib tr c rq st a le w = request_loop lib tr c rq st (a + 1) (Some msg) ?w''"
    using lt ta x by (simp add: request_loop_retry)
  have IH: "run_post lib tr c rq st (nat (a + 1)) k ?w''
              (request_loop lib tr c rq st (a + 1) (Some msg) ?w'')"
  proof (rule Suc.IH)
    show "0 \<le> a + 1" using Suc.prems(1) by simp
    show "a + 1 + int k \<le> retries c" using Suc.prems(2) by simp
    show "\<forall>i<k. attempt_error lib c (tr rq (calls ?w'' + i)) \<noteq> None"
      using Suc.prems(3) w''(1) by (metis Suc_less_eq add_Suc_shift)
    show "a + 1 + int k = retries c \<or> attempt_error lib c (tr rq (calls ?w'' + k)) = None"
      using Suc.prems(4) w''(1) by (simp add: add.commute add.left_commute)
  qed
  have nat: "nat (a + 1) = Suc (nat a)" using Suc.prems(1) by simp
  have idx: "calls ?w'' + k = calls w + Suc k" using w''(1) by simp
  show ?case
    using IH w''(2) unfolding step run_post_def nat backoff_schedule_Suc idx
    by (simp add: w''(1))
qed

text \<open>With \<open>retries \<ge> 0\<close> every call of the loop from attempt 0 is such a run.\<close>

lemma request_loop_some_run:
  assumes "0 \<le> retries c"
  shows "\<exists>k. run_post lib tr c rq st 0 k w (request_loop lib tr c rq st 0 le w)"
proof -
  let ?stop = "\<lambda>i. int i = retries c \<or> attempt_error lib c (tr rq (calls w + i)) = None"
  define k where "k = (LEAST i. ?stop i)"
  have ex: "?stop (nat (retries c))" using assms(1) by simp
  have stop: "?stop k" unfolding k_def using ex by (rule LeastI)
  have le: "k \<le> nat (retries c)" unfolding k_def using ex by (rule Least_le)
  have before: "\<forall>i<k. attempt_error lib c (tr rq (calls w + i)) \<noteq> None"
    using not_less_Least [of _ ?stop] unfolding k_def by blast
  have "run_post lib tr c rq st (nat 0) k w (request_loop lib tr c rq st 0 le w)"
    using assms(1) le before stop by (intro request_loop_run) simp_all
  then show ?thesis by auto
qed

text \<open>
  Time passes only in sleeps and transport calls: each step of a request, and so the
  whole loop, adds a timeline to the trace.
\<close>

lemma timeline_append:
  "timeline tr s (es @ fs) =
     (case timeline tr s es of None \<Rightarrow> None | Some s' \<Rightarrow> timeline tr s' fs)"
proof (induction es arbitrary: s)
  case Nil
  then show ?case by (cases s) simp
next
  case (Cons x es)
  obtain n t where s: "s = (n, t)" by (cases s)
  obtain t' e where x: "x = (t', e)" by (cases x)
  show ?case
    unfolding s x by (cases e) (simp_all add: Cons.IH)
qed

lemma elapses_refl: "elapses tr w w"
  by (simp add: elapses_def)

lemma elapses_trans:
  assumes "elapses tr w w'" and "elapses tr w' w''"
  shows "elapses tr w w''"
proof -
  from assms(1) obtain es where es: "trace w' = trace w @ es"
    "timeline tr (calls w, clock w) es = Some (calls w', clock w')"
    by (auto simp: elapses_def)
  from assms(2) obtain fs where fs: "trace w'' = trace w' @ fs"
    "timeline tr (calls w', clock w') fs = Some (calls w'', clock w'')"
    by (auto simp: elapses_def)
  have "trace w'' = trace w @ (es @ fs)" using es(1) fs(1) by simp
  moreover have "timeline tr (calls w, clock w) (es @ fs) = Some (calls w'', clock w'')"
    using es(2) fs(2) by (simp add: timeline_append)
  ultimately show ?thesis unfolding elapses_def by blast
qed

lemma elapses_time_sleep: "elapses tr w (time_sleep d w)"
  by (simp add: elapses_def time_sleep_def)

lemma elapses_asyncio_sleep: "elapses tr w (asyncio_sleep d w)"
  by (simp add: elapses_def asyncio_sleep_def)

lemma elapses_limiter: "elapses tr w w' \<Longrightarrow> elapses tr w (w'\<lparr>rate_limiter := rl\<rparr>)"
  by (simp add: elapses_def)

lemma elapses_apply_rate_limit: "elapses tr w (apply_rate_limit w)"
proof -
  have "elapses tr w (time_sleep d (w\<lparr>rate_limiter := rl\<rparr>))" for d rl
    by (simp add: elapses_def time_sleep_def)
  moreover have "elapses tr w (w\<lparr>rate_limiter := rl\<rparr>)" for rl
    by (simp add: elapses_def)
  ultimately show ?thesis
    by (simp add: apply_rate_limit_def Let_def split: prod.splits bool.splits)
qed

lemma elapses_transport:
  "elapses tr w
     (w\<lparr>calls := Suc (calls w), trace := trace w @ [(clock w, Transport rq)],
        clock := clock w + outcome_time (tr rq (calls w))\<rparr>)"
  by (simp add: elapses_def)

lemma try_attempt_world:
  "snd (try_attempt lib tr c rq st w) =
     (apply_rate_limit w)\<lparr>calls := Suc (calls (apply_rate_limit w)),
        trace := trace (apply_rate_limit w) @ [(clock (apply_rate_limit w), Transport rq)],
        clock := clock (apply_rate_limit w)
                   + outcome_time (tr rq (calls (apply_rate_limit w)))\<rparr>"
  by (simp add: try_attempt_def Let_def outcome_time_def split: outcome.splits sum.splits)

lemma elapses_try_attempt: "elapses tr w (snd (try_attempt lib tr c rq st w))"
  unfolding try_attempt_world
  by (rule elapses_trans [OF elapses_apply_rate_limit elapses_transport])

lemma elapses_request_loop:
  "elapses tr w (snd (request_loop lib tr c rq st a le w))"
proof (induction "nat (retries c + 1 - a)" arbitrary: a le w)
  case 0
  then have "\<not> a < retries c + 1" by simp
  then show ?case by (simp add: request_loop_done elapses_refl)
next
  case (Suc n)
  then have lt: "a < retries c + 1" by simp
  obtain x w' where ta: "try_attempt lib tr c rq st w = (x, w')"
    by (cases "try_attempt lib tr c rq st w")
  have w': "elapses tr w w'"
    using elapses_try_attempt [of tr w lib c rq st] ta by simp
  show ?case
  proof (cases x)
    case (Inr resp)
    then show ?thesis using lt ta w' by (simp add: request_loop_ok)
  next
    case (Inl msg)
    let ?w'' = "if a < retries c then asyncio_sleep (2 ^ nat a) w' else w'"
    have n: "n = nat (retries c + 1 - (a + 1))" using Suc.hyps(2) by simp
    have "elapses tr w' ?w''" by (simp add: elapses_asyncio_sleep elapses_refl)
    with w' have "elapses tr w ?w''" by (rule elapses_trans)
    moreover have "elapses tr ?w'' (snd (request_loop lib tr c rq st (a + 1) (Some msg) ?w''))"
      by (rule Suc.hyps(1) [OF n])
    ultimately have "elapses tr w (snd (request_loop lib tr c rq st (a + 1) (Some msg) ?w''))"
      by (rule elapses_trans)
    then show ?thesis using lt ta Inl by (simp add: request_loop_retry)
  qed
qed

lemma attempt_error_Raises [simp]: "attempt_error lib c (Raises msg d) = Some msg"
  by (simp add: attempt_error_def)

section \<open>The envelope and the retry policy\<close>

text \<open>
  Claim C1. With \<open>retries \<ge> 0\<close>, when the first transport call returns a response
  (of any status, 500 for example) that \<open>_parse_response\<close> accepts on the session
  path, the request makes exactly one transport call whatever \<open>retries\<close> is, with no
  backoff, and the envelope has the response's status, \<open>success = (status < 400)\<close> and
  no error.
\<close>

theorem no_retry_on_response:
  assumes "0 \<le> retries c"
    and "tr (build_request c method endpoint body' hdrs params) (calls w) = Responds r d"
    and "session c \<longrightarrow> (\<exists>p. parse_response lib r = Inr p)"
  shows "calls (snd (make_request lib tr c method endpoint body' hdrs params w)) = calls w + 1
     \<and> status_code (fst (make_request lib tr c method endpoint body' hdrs params w)) = status r
     \<and> success (fst (make_request lib tr c method endpoint body' hdrs params w)) = (status r < 400)
     \<and> error (fst (make_request lib tr c method endpoint body' hdrs params w)) = None
     \<and> attempts_and_backoffs (trace (snd (make_request lib tr c method endpoint body' hdrs params w)))
         = attempts_and_backoffs (trace w)
             @ [Transport (build_request c method endpoint body' hdrs params)]"
proof -
  let ?rq = "build_request c method endpoint body' hdrs params"
  have ok: "attempt_error lib c (tr ?rq (calls w + 0)) = None"
    using assms(2,3) by (auto simp: attempt_error_def)
  have "run_post lib tr c ?rq (clock w) (nat 0) 0 w (request_loop lib tr c ?rq (clock w) 0 None w)"
    using assms(1) ok by (intro request_loop_run) simp_all
  then show ?thesis
    using ok assms(2) by (simp add: run_post_def make_request_def backoff_schedule_def)
qed

theorem no_retry_on_response_witness:
  "calls (snd (make_request braces_codec
       (always (Responds \<lparr>status = 500, resp_headers = [], body = ''oops''\<rparr> 0))
       (client_of (APIClient_init ''http://x'' 30 3 100 None)) ''GET'' ''/a'' None None None
       (world_of (APIClient_init ''http://x'' 30 3 100 None)))) = 1
   \<and> status_code (fst (make_request braces_codec
       (always (Responds \<lparr>status = 500, resp_headers = [], body = ''oops''\<rparr> 0))
       (client_of (APIClient_init ''http://x'' 30 3 100 None)) ''GET'' ''/a'' None None None
       (world_of (APIClient_init ''http://x'' 30 3 100 None)))) = 500
   \<and> \<not> success (fst (make_request braces_codec
       (always (Responds \<lparr>status = 500, resp_headers = [], body = ''oops''\<rparr> 0))
       (client_of (APIClient_init ''http://x'' 30 3 100 None)) ''GET'' ''/a'' None None None
       (world_of (APIClient_init ''http://x'' 30 3 100 None))))"
  using no_retry_on_response [of "client_of (APIClient_init ''http://x'' 30 3 100 None)"
      "always (Responds \<lparr>status = 500, resp_headers = [], body = ''oops''\<rparr> 0)"
      "''GET''" "''/a''" None None None "world_of (APIClient_init ''http://x'' 30 3 100 None)"
      "\<lparr>status = 500, resp_headers = [], body = ''oops''\<rparr>" 0 braces_codec]
  by (simp add: always_def client_of_def world_of_def APIClient_init_def RateLimiter_init_def)

text \<open>
  Claim C4, as the specification states it, asks for a non-empty error. An exception
  whose \<open>str(e)\<close> is empty (a bare timeout error, for one) leaves the empty string
  there.
\<close>

theorem empty_error_counterexample:
  "make_request braces_codec (always (Raises [] 30))
       (client_of (APIClient_init ''http://x'' 30 0 100 None)) ''GET'' ''/a'' None None None
       (world_of (APIClient_init ''http://x'' 30 0 100 None))
   = (\<lparr>status_code = 0, data = None, headers = [], response_time = 30, success = False,
        error = Some []\<rparr>,
      \<lparr>clock = 30, rate_limiter = \<lparr>max_requests = 100, time_window = 60, requests = [0]\<rparr>,
        calls = 1,
        trace = [(0, Transport (build_request
                   (client_of (APIClient_init ''http://x'' 30 0 100 None))
                   ''GET'' ''/a'' None None None))]\<rparr>)"
  by (simp add: eval_defs)

text \<open>
  Claim C4, amended. With \<open>retries = r \<ge> 0\<close> and a transport that raises on each
  of the calls \<open>0 .. r\<close>, the request makes exactly \<open>r + 1\<close> transport calls and returns
  status 0, no payload, empty headers, \<open>success = false\<close> and as error the description
  of the last call's exception, which is the empty string exactly when that
  description is empty.
\<close>

theorem retries_exhausted:
  assumes "0 \<le> retries c"
    and "\<forall>i \<le> nat (retries c).
           \<exists>msg d. tr (build_request c method endpoint body' hdrs params) (calls w + i)
                     = Raises msg d"
  shows "calls (snd (make_request lib tr c method endpoint body' hdrs params w))
           = calls w + nat (retries c) + 1
     \<and> status_code (fst (make_request lib tr c method endpoint body' hdrs params w)) = 0
     \<and> data (fst (make_request lib tr c method endpoint body' hdrs params w)) = None
     \<and> headers (fst (make_request lib tr c method endpoint body' hdrs params w)) = []
     \<and> \<not> success (fst (make_request lib tr c method endpoint body' hdrs params w))
     \<and> (\<exists>msg d. tr (build_request c method endpoint body' hdrs params)
                    (calls w + nat (retries c)) = Raises msg d
           \<and> error (fst (make_request lib tr c method endpoint body' hdrs params w)) = Some msg
           \<and> (error (fst (make_request lib tr c method endpoint body' hdrs params w)) = Some []
                \<longleftrightarrow> msg = []))"
proof -
  let ?rq = "build_request c method endpoint body' hdrs params"
  let ?k = "nat (retries c)"
  obtain msg d where last: "tr ?rq (calls w + ?k) = Raises msg d"
    using assms(2) by blast
  have fails: "\<forall>i<?k. attempt_error lib c (tr ?rq (calls w + i)) \<noteq> None"
  proof (intro allI impI)
    fix i assume "i < ?k"
    then obtain m e where "tr ?rq (calls w + i) = Raises m e"
      using assms(2) by (meson less_imp_le)
    then show "attempt_error lib c (tr ?rq (calls w + i)) \<noteq> None" by simp
  qed
  have "run_post lib tr c ?rq (clock w) (nat 0) ?k w
          (request_loop lib tr c ?rq (clock w) 0 None w)"
    using assms(1) fails by (intro request_loop_run) simp_all
  then show ?thesis
    using last by (simp add: run_post_def make_request_def)
qed

theorem retries_exhausted_witness:
  "calls (snd (make_request braces_codec (always (Raises ''timed out'' 30))
       (client_of (APIClient_init ''http://x'' 30 2 100 None)) ''GET'' ''/a'' None None None
       (world_of (APIClient_init ''http://x'' 30 2 100 None)))) = 3
   \<and> error (fst (make_request braces_codec (always (Raises ''timed out'' 30))
       (client_of (APIClient_init ''http://x'' 30 2 100 None)) ''GET'' ''/a'' None None None
       (world_of (APIClient_init ''http://x'' 30 2 100 None)))) = Some ''timed out''"
  using retries_exhausted [of "client_of (APIClient_init ''http://x'' 30 2 100 None)"
      "always (Raises ''timed out'' 30)"
      "''GET''" "''/a''" None None None "world_of (APIClient_init ''http://x'' 30 2 100 None)"
      braces_codec]
  by (simp add: always_def client_of_def world_of_def APIClient_init_def RateLimiter_init_def)

text \<open>
  Claim C5, as the specification states it, speaks of every envelope. The envelope
  copies the status of whatever response the transport returns and sets
  \<open>success = (status < 400)\<close>: a response with status 0 gives \<open>success = true\<close> with
  status 0 and no error, against both implications.
\<close>

theorem status_zero_counterexample:
  "fst (make_request braces_codec
       (always (Responds \<lparr>status = 0, resp_headers = [], body = []\<rparr> 0))
       (client_of (APIClient_init ''http://x'' 30 3 100 None)) ''GET'' ''/a'' None None None
       (world_of (APIClient_init ''http://x'' 30 3 100 None)))
   = \<lparr>status_code = 0, data = Some (Text []), headers = [], response_time = 0,
      success = True, error = None\<rparr>"
  by (simp add: eval_defs)

text \<open>
  Claim C5, amended. With \<open>retries \<ge> 0\<close>, in every returned envelope \<open>success\<close>
  implies a status of at most 399 and no error; and when every response of the
  transport carries a status of 100 or more, \<open>success\<close> implies a status in
  100 .. 399, and status 0 implies \<open>success = false\<close> and an error.
\<close>

theorem envelope_invariant:
  assumes "0 \<le> retries c"
  shows "(success (fst (make_request lib tr c method endpoint body' hdrs params w))
          \<longrightarrow> status_code (fst (make_request lib tr c method endpoint body' hdrs params w)) \<le> 399
              \<and> error (fst (make_request lib tr c method endpoint body' hdrs params w)) = None)
     \<and> ((\<forall>n r d. tr (build_request c method endpoint body' hdrs params) n = Responds r d
                   \<longrightarrow> 100 \<le> status r)
          \<longrightarrow> (success (fst (make_request lib tr c method endpoint body' hdrs params w))
                \<longrightarrow> 100 \<le> status_code
                            (fst (make_request lib tr c method endpoint body' hdrs params w)))
              \<and> (status_code (fst (make_request lib tr c method endpoint body' hdrs params w)) = 0
                \<longrightarrow> \<not> success (fst (make_request lib tr c method endpoint body' hdrs params w))
                    \<and> error (fst (make_request lib tr c method endpoint body' hdrs params w))
                        \<noteq> None))"
proof -
  let ?rq = "build_request c method endpoint body' hdrs params"
  obtain k where post: "run_post lib tr c ?rq (clock w) 0 k w
                          (request_loop lib tr c ?rq (clock w) 0 None w)"
    using request_loop_some_run [OF assms(1)] by blast
  show ?thesis
  proof (cases "attempt_error lib c (tr ?rq (calls w + k))")
    case (Some msg)
    with post show ?thesis by (simp add: run_post_def make_request_def)
  next
    case None
    with post obtain r d where r: "tr ?rq (calls w + k) = Responds r d"
      and env: "status_code (fst (request_loop lib tr c ?rq (clock w) 0 None w)) = status r"
        "success (fst (request_loop lib tr c ?rq (clock w) 0 None w)) = (status r < 400)"
        "error (fst (request_loop lib tr c ?rq (clock w) 0 None w)) = None"
      by (auto simp: run_post_def)
    have "100 \<le> status r"
      if "\<forall>n r d. tr ?rq n = Responds r d \<longrightarrow> 100 \<le> status r"
      using that r by blast
    with env show ?thesis by (auto simp: make_request_def)
  qed
qed

theorem envelope_invariant_witness:
  "success (fst (make_request braces_codec
       (always (Responds \<lparr>status = 204, resp_headers = [], body = []\<rparr> 0))
       (client_of (APIClient_init ''http://x'' 30 3 100 None)) ''GET'' ''/a'' None None None
       (world_of (APIClient_init ''http://x'' 30 3 100 None))))
   \<and> 100 \<le> status_code (fst (make_request braces_codec
       (always (Responds \<lparr>status = 204, resp_headers = [], body = []\<rparr> 0))
       (client_of (APIClient_init ''http://x'' 30 3 100 None)) ''GET'' ''/a'' None None None
       (world_of (APIClient_init ''http://x'' 30 3 100 None))))
   \<and> status_code (fst (make_request braces_codec
       (always (Responds \<lparr>status = 204, resp_headers = [], body = []\<rparr> 0))
       (client_of (APIClient_init ''http://x'' 30 3 100 None)) ''GET'' ''/a'' None None None
       (world_of (APIClient_init ''http://x'' 30 3 100 None)))) \<le> 399
   \<and> error (fst (make_request braces_codec
       (always (Responds \<lparr>status = 204, resp_headers = [], body = []\<rparr> 0))
       (client_of (APIClient_init ''http://x'' 30 3 100 None)) ''GET'' ''/a'' None None None
       (world_of (APIClient_init ''http://x'' 30 3 100 None)))) = None"
proof -
  have s: "success (fst (make_request braces_codec
       (always (Responds \<lparr>status = 204, resp_headers = [], body = []\<rparr> 0))
       (client_of (APIClient_init ''http://x'' 30 3 100 None)) ''GET'' ''/a'' None None None
       (world_of (APIClient_init ''http://x'' 30 3 100 None))))"
    by (simp add: eval_defs)
  show ?thesis
    using s envelope_invariant [of "client_of (APIClient_init ''http://x'' 30 3 100 None)"
      braces_codec
      "always (Responds \<lparr>status = 204, resp_headers = [], body = []\<rparr> 0)"
      "''GET''" "''/a''" None None None
      "world_of (APIClient_init ''http://x'' 30 3 100 None)"]
    by (simp add: always_def client_of_def APIClient_init_def RateLimiter_init_def)
qed

text \<open>
  Claim C6. In a request whose first \<open>k \<le> retries\<close> attempts fail and whose attempt
  \<open>k\<close> succeeds or is the last one allowed (\<open>k = retries\<close>), the transport calls and
  backoff suspensions are, in order: attempt \<open>i\<close> followed by a suspension of \<open>2 ^ i\<close>
  seconds for each \<open>i < k\<close>, then attempt \<open>k\<close> and nothing after it. The events the
  request adds to the trace form a timeline from the clock at its start to the clock
  at its return: the suspension after attempt \<open>i\<close> begins when that attempt's
  transport call is over, attempt \<open>i + 1\<close> (its rate-limit step) begins exactly
  \<open>2 ^ i\<close> seconds later, and the request returns when the transport call of attempt
  \<open>k\<close> is over.
\<close>

theorem backoff_sequence:
  assumes "int k \<le> retries c"
    and "\<forall>i<k. attempt_error lib c
                  (tr (build_request c method endpoint body' hdrs params) (calls w + i)) \<noteq> None"
    and "int k = retries c
         \<or> attempt_error lib c
              (tr (build_request c method endpoint body' hdrs params) (calls w + k)) = None"
  shows "attempts_and_backoffs
           (trace (snd (make_request lib tr c method endpoint body' hdrs params w)))
         = attempts_and_backoffs (trace w)
           @ concat (map (\<lambda>i. [Transport (build_request c method endpoint body' hdrs params),
                               AsyncioSleep (2 ^ i)]) [0..<k])
           @ [Transport (build_request c method endpoint body' hdrs params)]
     \<and> (\<exists>es. trace (snd (make_request lib tr c method endpoint body' hdrs params w))
                 = trace w @ es
             \<and> timeline tr (calls w, clock w) es
                 = Some (calls w + k + 1,
                         clock (snd (make_request lib tr c method endpoint body' hdrs params w))))"
proof -
  let ?rq = "build_request c method endpoint body' hdrs params"
  let ?res = "request_loop lib tr c ?rq (clock w) 0 None w"
  have post: "run_post lib tr c ?rq (clock w) (nat 0) k w ?res"
    using assms by (intro request_loop_run) simp_all
  then have order: "attempts_and_backoffs (trace (snd ?res))
      = attempts_and_backoffs (trace w)
        @ concat (map (\<lambda>i. [Transport ?rq, AsyncioSleep (2 ^ i)]) [0..<k]) @ [Transport ?rq]"
    and calls: "calls (snd ?res) = calls w + k + 1"
    by (simp_all add: run_post_def backoff_schedule_def)
  have "elapses tr w (snd ?res)" by (rule elapses_request_loop)
  then have timed: "\<exists>es. trace (snd ?res) = trace w @ es
      \<and> timeline tr (calls w, clock w) es = Some (calls w + k + 1, clock (snd ?res))"
    unfolding elapses_def calls .
  from order timed show ?thesis
    unfolding make_request_def by (rule conjI)
qed

theorem backoff_sequence_witness:
  "attempts_and_backoffs (trace (snd (make_request braces_codec
       (\<lambda>rq n. if n < 2 then Raises ''refused'' 0
                else Responds \<lparr>status = 200, resp_headers = [], body = ''ok''\<rparr> 0)
       (client_of (APIClient_init ''http://x'' 30 3 100 None)) ''GET'' ''/a'' None None None
       (world_of (APIClient_init ''http://x'' 30 3 100 None)))))
   = [Transport (build_request (client_of (APIClient_init ''http://x'' 30 3 100 None))
                  ''GET'' ''/a'' None None None), AsyncioSleep 1,
      Transport (build_request (client_of (APIClient_init ''http://x'' 30 3 100 None))
                  ''GET'' ''/a'' None None None), AsyncioSleep 2,
      Transport (build_request (client_of (APIClient_init ''http://x'' 30 3 100 None))
                  ''GET'' ''/a'' None None None)]
   \<and> timeline
       (\<lambda>rq n. if n < 2 then Raises ''refused'' 0
                else Responds \<lparr>status = 200, resp_headers = [], body = ''ok''\<rparr> 0)
       (0, 0)
       (trace (snd (make_request braces_codec
       (\<lambda>rq n. if n < 2 then Raises ''refused'' 0
                else Responds \<lparr>status = 200, resp_headers = [], body = ''ok''\<rparr> 0)
       (client_of (APIClient_init ''http://x'' 30 3 100 None)) ''GET'' ''/a'' None None None
       (world_of (APIClient_init ''http://x'' 30 3 100 None)))))
     = Some (3, 3)
   \<and> map fst (trace (snd (make_request braces_codec
       (\<lambda>rq n. if n < 2 then Raises ''refused'' 0
                else Responds \<lparr>status = 200, resp_headers = [], body = ''ok''\<rparr> 0)
       (client_of (APIClient_init ''http://x'' 30 3 100 None)) ''GET'' ''/a'' None None None
       (world_of (APIClient_init ''http://x'' 30 3 100 None)))))
     = [0, 0, 1, 1, 3]"
proof -
  have two: "[0..<2] = [0, Suc 0]" by (simp add: upt_conv_Cons)
  have ev: "clock (snd (make_request braces_codec
       (\<lambda>rq n. if n < 2 then Raises ''refused'' 0
                else Responds \<lparr>status = 200, resp_headers = [], body = ''ok''\<rparr> 0)
       (client_of (APIClient_init ''http://x'' 30 3 100 None)) ''GET'' ''/a'' None None None
       (world_of (APIClient_init ''http://x'' 30 3 100 None)))) = 3"
    "map fst (trace (snd (make_request braces_codec
       (\<lambda>rq n. if n < 2 then Raises ''refused'' 0
                else Responds \<lparr>status = 200, resp_headers = [], body = ''ok''\<rparr> 0)
       (client_of (APIClient_init ''http://x'' 30 3 100 None)) ''GET'' ''/a'' None None None
       (world_of (APIClient_init ''http://x'' 30 3 100 None)))))
     = [0, 0, 1, 1, 3]"
    by (simp_all add: eval_defs)
  show ?thesis
    using ev backoff_sequence [of 2 "client_of (APIClient_init ''http://x'' 30 3 100 None)"
      braces_codec
      "\<lambda>rq n. if n < 2 then Raises ''refused'' 0
               else Responds \<lparr>status = 200, resp_headers = [], body = ''ok''\<rparr> 0"
      "''GET''" "''/a''" None None None "world_of (APIClient_init ''http://x'' 30 3 100 None)"]
    by (simp add: two client_of_def world_of_def APIClient_init_def RateLimiter_init_def
          attempt_error_def attempts_and_backoffs_def)
qed

section \<open>The target URL\<close>

lemma transport_urls_append:
  "transport_urls (xs @ ys) = transport_urls xs @ transport_urls ys"
  by (induction xs rule: transport_urls.induct) simp_all

lemma transport_urls_schedule:
  "transport_urls (backoff_schedule rq a k) = replicate (Suc k) (req_url rq)"
proof (induction k arbitrary: a)
  case 0
  then show ?case by (simp add: backoff_schedule_def)
next
  case (Suc k)
  then show ?case by (simp add: backoff_schedule_Suc)
qed

lemma rstrip_decomp:
  "\<exists>k. s = rstrip [ch] s @ replicate k ch"
proof -
  have "rev s = takeWhile (\<lambda>c. c = ch) (rev s) @ dropWhile (\<lambda>c. c = ch) (rev s)"
    by simp
  moreover have "takeWhile (\<lambda>c. c = ch) (rev s)
                   = replicate (length (takeWhile (\<lambda>c. c = ch) (rev s))) ch"
    by (metis (mono_tags, lifting) replicate_eqI set_takeWhileD)
  ultimately have "rev s = replicate (length (takeWhile (\<lambda>c. c = ch) (rev s))) ch
                             @ dropWhile (\<lambda>c. c = ch) (rev s)"
    by simp
  then have "s = rev (dropWhile (\<lambda>c. c = ch) (rev s))
                   @ replicate (length (takeWhile (\<lambda>c. c = ch) (rev s))) ch"
    by (metis rev_append rev_replicate rev_rev_ident)
  then show ?thesis by (auto simp: rstrip_def)
qed

lemma lstrip_decomp:
  "\<exists>m. s = replicate m ch @ lstrip [ch] s"
proof -
  have "s = takeWhile (\<lambda>c. c = ch) s @ dropWhile (\<lambda>c. c = ch) s"
    by simp
  moreover have "takeWhile (\<lambda>c. c = ch) s = replicate (length (takeWhile (\<lambda>c. c = ch) s)) ch"
    by (metis (mono_tags, lifting) replicate_eqI set_takeWhileD)
  ultimately have "s = replicate (length (takeWhile (\<lambda>c. c = ch) s)) ch
                         @ dropWhile (\<lambda>c. c = ch) s"
    by simp
  then show ?thesis by (auto simp: lstrip_def)
qed

lemma rstrip_no_suffix: "\<not> suffix [ch] (rstrip [ch] s)"
proof
  assume "suffix [ch] (rstrip [ch] s)"
  then have "prefix [ch] (dropWhile (\<lambda>c. c = ch) (rev s))"
    by (simp add: rstrip_def suffix_to_prefix)
  then obtain zs where "dropWhile (\<lambda>c. c = ch) (rev s) = ch # zs"
    by (auto simp: prefix_def)
  then show False
    by (metis (full_types) hd_dropWhile list.distinct(1) list.sel(1))
qed

lemma lstrip_no_prefix: "\<not> prefix [ch] (lstrip [ch] s)"
proof
  assume "prefix [ch] (lstrip [ch] s)"
  then obtain zs where "dropWhile (\<lambda>c. c = ch) s = ch # zs"
    by (auto simp: prefix_def lstrip_def)
  then show False
    by (metis (full_types) hd_dropWhile list.distinct(1) list.sel(1))
qed

text \<open>
  Claim C9. A client constructed for the address \<open>base\<close> (entered as a context
  manager or not, \<open>retries \<ge> 0\<close>) sends every transport call of a request for
  \<open>endpoint\<close> to \<open>b/p\<close>: \<open>b\<close> is \<open>base\<close> without its trailing slashes and does not end
  in a slash, \<open>p\<close> is \<open>endpoint\<close> without its leading slashes and does not begin with
  one, and at least one call is made.
\<close>

theorem url_join:
  assumes "APIClient_init base tmo r rate tok = Inr (c0, rl)"
    and "c = c0 \<or> c = aenter c0"
    and "0 \<le> r"
  shows "(\<exists>n. transport_urls (attempts_and_backoffs
                (trace (snd (make_request lib tr c verb endpoint body' hdrs params w))))
              = transport_urls (attempts_and_backoffs (trace w))
                @ replicate (Suc n) (rstrip ''/'' base @ ''/'' @ lstrip ''/'' endpoint))
     \<and> (\<exists>k. base = rstrip ''/'' base @ replicate k CHR ''/'')
     \<and> \<not> suffix ''/'' (rstrip ''/'' base)
     \<and> (\<exists>m. endpoint = replicate m CHR ''/'' @ lstrip ''/'' endpoint)
     \<and> \<not> prefix ''/'' (lstrip ''/'' endpoint)"
proof -
  let ?rq = "build_request c verb endpoint body' hdrs params"
  have c: "base_url c = rstrip ''/'' base" "retries c = r"
    using assms(1,2)
    by (auto simp: APIClient_init_def RateLimiter_init_def aenter_def Let_def)
  have url: "req_url ?rq = rstrip ''/'' base @ ''/'' @ lstrip ''/'' endpoint"
    using c by (simp add: build_request_def)
  obtain k where "run_post lib tr c ?rq (clock w) 0 k w
                    (request_loop lib tr c ?rq (clock w) 0 None w)"
    using request_loop_some_run [of c lib tr ?rq "clock w" w None] assms(3) c by auto
  then have "transport_urls (attempts_and_backoffs
                (trace (snd (make_request lib tr c verb endpoint body' hdrs params w))))
              = transport_urls (attempts_and_backoffs (trace w))
                @ replicate (Suc k) (rstrip ''/'' base @ ''/'' @ lstrip ''/'' endpoint)"
    using url
    by (simp add: run_post_def make_request_def transport_urls_append transport_urls_schedule)
  then show ?thesis
    using rstrip_decomp [of base "CHR ''/''"] lstrip_decomp [of endpoint "CHR ''/''"]
      rstrip_no_suffix [of "CHR ''/''" base] lstrip_no_prefix [of "CHR ''/''" endpoint]
    by blast
qed

theorem url_join_witness:
  "set (transport_urls (attempts_and_backoffs (trace (snd (make_request braces_codec
       (always (Responds \<lparr>status = 200, resp_headers = [], body = ''ok''\<rparr> 0))
       (client_of (APIClient_init ''http://host:8080/'' 30 3 100 None))
       ''GET'' ''/users'' None None None
       (world_of (APIClient_init ''http://host:8080/'' 30 3 100 None)))))))
     = {''http://host:8080/users''}
   \<and> set (transport_urls (attempts_and_backoffs (trace (snd (make_request braces_codec
       (always (Responds \<lparr>status = 200, resp_headers = [], body = ''ok''\<rparr> 0))
       (client_of (APIClient_init ''http://host:8080'' 30 3 100 None))
       ''GET'' ''/users'' None None None
       (world_of (APIClient_init ''http://host:8080'' 30 3 100 None)))))))
     = {''http://host:8080/users''}"
proof -
  have a: "APIClient_init ''http://host:8080/'' 30 3 100 None
             = Inr (client_of (APIClient_init ''http://host:8080/'' 30 3 100 None),
                    snd (projr (APIClient_init ''http://host:8080/'' 30 3 100 None)))"
    by (simp add: APIClient_init_def RateLimiter_init_def client_of_def)
  have b: "APIClient_init ''http://host:8080'' 30 3 100 None
             = Inr (client_of (APIClient_init ''http://host:8080'' 30 3 100 None),
                    snd (projr (APIClient_init ''http://host:8080'' 30 3 100 None)))"
    by (simp add: APIClient_init_def RateLimiter_init_def client_of_def)
  have w: "attempts_and_backoffs (trace (world_of made :: string world)) = []" for made
    by (simp add: world_of_def attempts_and_backoffs_def)
  have s1: "rstrip ''/'' ''http://host:8080/'' = ''http://host:8080''"
    and s2: "rstrip ''/'' ''http://host:8080'' = ''http://host:8080''"
    and s3: "lstrip ''/'' ''/users'' = ''users''"
    by (simp_all add: rstrip_def lstrip_def)
  from url_join [OF a disjI1 [OF refl], where lib = braces_codec
      and tr = "always (Responds \<lparr>status = 200, resp_headers = [], body = ''ok''\<rparr> 0)"
      and endpoint = "''/users''" and verb = "''GET''" and body' = None and hdrs = None
      and params = None and w = "world_of (APIClient_init ''http://host:8080/'' 30 3 100 None)"]
  have one: "set (transport_urls (attempts_and_backoffs (trace (snd (make_request braces_codec
       (always (Responds \<lparr>status = 200, resp_headers = [], body = ''ok''\<rparr> 0))
       (client_of (APIClient_init ''http://host:8080/'' 30 3 100 None))
       ''GET'' ''/users'' None None None
       (world_of (APIClient_init ''http://host:8080/'' 30 3 100 None)))))))
     = {''http://host:8080/users''}"
    unfolding w s1 s3 by auto
  from url_join [OF b disjI1 [OF refl], where lib = braces_codec
      and tr = "always (Responds \<lparr>status = 200, resp_headers = [], body = ''ok''\<rparr> 0)"
      and endpoint = "''/users''" and verb = "''GET''" and body' = None and hdrs = None
      and params = None and w = "world_of (APIClient_init ''http://host:8080'' 30 3 100 None)"]
  have two: "set (transport_urls (attempts_and_backoffs (trace (snd (make_request braces_codec
       (always (Responds \<lparr>status = 200, resp_headers = [], body = ''ok''\<rparr> 0))
       (client_of (APIClient_init ''http://host:8080'' 30 3 100 None))
       ''GET'' ''/users'' None None None
       (world_of (APIClient_init ''http://host:8080'' 30 3 100 None)))))))
     = {''http://host:8080/users''}"
    unfolding w s2 s3 by auto
  from one two show ?thesis by simp
qed

section \<open>Construction\<close>

text \<open>
  Claim C3, as the specification states it, has the constructor reject a window of
  0. It returns a limiter, and \<open>can_proceed\<close> works on it.
\<close>

theorem window_zero_counterexample:
  "RateLimiter_init 5 0 = Inr \<lparr>max_requests = 5, time_window = 0, requests = []\<rparr>
   \<and> RateLimiter_init 5 0 \<noteq> Inl ConfigurationError
   \<and> can_proceed 7 \<lparr>max_requests = 5, time_window = 0, requests = []\<rparr>
       = (True, \<lparr>max_requests = 5, time_window = 0, requests = [7]\<rparr>)"
  by (simp add: RateLimiter_init_def can_proceed_def)

text \<open>
  Claim C3, amended. Neither constructor validates or raises: \<open>RateLimiter\<close> stores
  any \<open>max_requests\<close> and any window, also one that is 0 or negative, with no
  timestamps; \<open>APIClient\<close> always gives its limiter the window 60; and a limiter whose
  window is not positive is accepted by \<open>can_proceed\<close>, which (with
  \<open>max_requests > 0\<close> and no timestamp from the future) prunes everything and admits.
\<close>

theorem constructors_never_raise:
  "RateLimiter_init n win = Inr \<lparr>max_requests = n, time_window = win, requests = []\<rparr>
   \<and> (\<exists>c. APIClient_init base tmo r rate tok
            = Inr (c, \<lparr>max_requests = rate, time_window = 60, requests = []\<rparr>))
   \<and> (win \<le> 0 \<and> 0 < n \<and> (\<forall>t \<in> set ts. t \<le> now)
        \<longrightarrow> can_proceed now \<lparr>max_requests = n, time_window = win, requests = ts\<rparr>
              = (True, \<lparr>max_requests = n, time_window = win, requests = [now]\<rparr>))"
proof -
  have "filter (\<lambda>req_time. now - req_time < real_of_int win) ts = []"
    if "win \<le> 0" "\<forall>t \<in> set ts. t \<le> now"
  proof (rule filter_window_none, rule ballI)
    fix s assume "s \<in> set ts"
    then have "0 \<le> now - s" using that(2) by simp
    moreover have "real_of_int win \<le> 0" using that(1) by simp
    ultimately show "real_of_int win \<le> now - s" by linarith
  qed
  then show ?thesis
    by (auto simp: RateLimiter_init_def APIClient_init_def can_proceed_def Let_def)
qed

theorem constructors_never_raise_witness:
  "can_proceed 9 \<lparr>max_requests = 1, time_window = - 5, requests = [9, 8]\<rparr>
     = (True, \<lparr>max_requests = 1, time_window = - 5, requests = [9]\<rparr>)"
  using constructors_never_raise [of 1 "- 5" _ _ _ _ _ "[9, 8]" 9]
  by simp

section \<open>The two execution paths\<close>

text \<open>
  Where \<open>_parse_response\<close> raises on no response of the transport and decodes as
  \<open>_parse_sync_response\<close> does, the two paths return the same envelope and leave the
  same world.
\<close>

lemma try_attempt_paths_agree:
  assumes "\<forall>r d. tr rq (calls w) = Responds r d
             \<longrightarrow> parse_response lib r = Inr (parse_sync_response lib r)"
  shows "try_attempt lib tr (c\<lparr>session := True\<rparr>) rq st w
           = try_attempt lib tr (c\<lparr>session := False\<rparr>) rq st w"
  using assms
  by (auto simp: try_attempt_def Let_def split: outcome.splits sum.splits)

lemma request_loop_paths_agree:
  assumes "\<forall>n r d. tr rq n = Responds r d
             \<longrightarrow> parse_response lib r = Inr (parse_sync_response lib r)"
  shows "request_loop lib tr (c\<lparr>session := True\<rparr>) rq st a le w
           = request_loop lib tr (c\<lparr>session := False\<rparr>) rq st a le w"
proof (induction "nat (retries c + 1 - a)" arbitrary: a le w)
  case 0
  then have "\<not> a < retries c + 1" by simp
  then show ?case by (simp add: request_loop_done)
next
  case (Suc n)
  then have lt: "a < retries c + 1" by simp
  have same: "try_attempt lib tr (c\<lparr>session := True\<rparr>) rq st w
                = try_attempt lib tr (c\<lparr>session := False\<rparr>) rq st w"
    using assms by (intro try_attempt_paths_agree) blast
  obtain x w' where ta: "try_attempt lib tr (c\<lparr>session := False\<rparr>) rq st w = (x, w')"
    by (cases "try_attempt lib tr (c\<lparr>session := False\<rparr>) rq st w")
  show ?case
  proof (cases x)
    case (Inr resp)
    then show ?thesis using lt ta same by (simp add: request_loop_ok)
  next
    case (Inl msg)
    have n: "n = nat (retries c + 1 - (a + 1))" using Suc.hyps(2) by simp
    show ?thesis
      using lt ta same Inl Suc.hyps(1) [OF n]
      by (simp add: request_loop_retry)
  qed
qed

lemma paths_agree_when_decodable:
  assumes "\<not> session c"
    and "\<forall>n r d. tr (build_request c verb endpoint body' hdrs params) n = Responds r d
           \<longrightarrow> parse_response lib r = Inr (parse_sync_response lib r)"
  shows "make_request lib tr (aenter c) verb endpoint body' hdrs params w
           = make_request lib tr c verb endpoint body' hdrs params w"
proof -
  have c: "c\<lparr>session := False\<rparr> = c" using assms(1) by simp
  have rq: "build_request (c\<lparr>session := True\<rparr>) verb endpoint body' hdrs params
              = build_request c verb endpoint body' hdrs params"
    by (simp add: build_request_def)
  show ?thesis
    using request_loop_paths_agree
      [where tr = tr and lib = lib and c = c and st = "clock w" and a = 0 and le = None
         and w = w and rq = "build_request c verb endpoint body' hdrs params"] assms(2)
    by (simp add: make_request_def rq aenter_def c)
qed

text \<open>
  Claim C7. The blocking path and the session path are to give equal envelopes and
  make equally many attempts. For a response that declares JSON and carries a body
  that is not JSON they do not: \<open>_parse_sync_response\<close> catches the decoding error
  and returns the text, so the blocking path returns the response after one call;
  \<open>_parse_response\<close> lets it escape into the \<open>except\<close> clause of the loop, so the
  session path retries and ends with status 0 and an error. Here \<open>retries = 1\<close>.
\<close>

theorem undecodable_json_paths_differ:
  "fst (make_request braces_codec
     (always (Responds \<lparr>status = 200, resp_headers = [(''Content-Type'', ''application/json'')],
                         body = ''<html>''\<rparr> 0))
     (client_of (APIClient_init ''http://x'' 30 1 100 None)) ''GET'' ''/a'' None None None
     (world_of (APIClient_init ''http://x'' 30 1 100 None)))
   = \<lparr>status_code = 200, data = Some (Text ''<html>''),
      headers = [(''Content-Type'', ''application/json'')], response_time = 0,
      success = True, error = None\<rparr>
   \<and> calls (snd (make_request braces_codec
     (always (Responds \<lparr>status = 200, resp_headers = [(''Content-Type'', ''application/json'')],
                         body = ''<html>''\<rparr> 0))
     (client_of (APIClient_init ''http://x'' 30 1 100 None)) ''GET'' ''/a'' None None None
     (world_of (APIClient_init ''http://x'' 30 1 100 None)))) = 1
   \<and> fst (make_request braces_codec
     (always (Responds \<lparr>status = 200, resp_headers = [(''Content-Type'', ''application/json'')],
                         body = ''<html>''\<rparr> 0))
     (aenter (client_of (APIClient_init ''http://x'' 30 1 100 None))) ''GET'' ''/a'' None None None
     (world_of (APIClient_init ''http://x'' 30 1 100 None)))
   = \<lparr>status_code = 0, data = None, headers = [], response_time = 1,
      success = False, error = Some ''Expecting value''\<rparr>
   \<and> calls (snd (make_request braces_codec
     (always (Responds \<lparr>status = 200, resp_headers = [(''Content-Type'', ''application/json'')],
                         body = ''<html>''\<rparr> 0))
     (aenter (client_of (APIClient_init ''http://x'' 30 1 100 None))) ''GET'' ''/a'' None None None
     (world_of (APIClient_init ''http://x'' 30 1 100 None)))) = 2"
  by (simp add: eval_defs)

section \<open>A refused request is sent all the same\<close>

lemma wait_time_state: "snd (wait_time now rl) = rl"
  by (simp add: wait_time_def Let_def split: list.splits)

lemma wait_time_nonneg: "0 \<le> fst (wait_time now rl)"
  by (simp add: wait_time_def Let_def split: list.splits)

lemma apply_rate_limit_refused:
  assumes "\<not> fst (can_proceed (clock w) (rate_limiter w))"
  shows "apply_rate_limit w =
           w\<lparr>clock := clock w
                  + fst (wait_time (clock w) (snd (can_proceed (clock w) (rate_limiter w)))),
             rate_limiter := (rate_limiter w)\<lparr>requests :=
                 filter (\<lambda>t. clock w - t < real_of_int (time_window (rate_limiter w)))
                   (requests (rate_limiter w))\<rparr>,
             trace := trace w
                 @ (if 0 < fst (wait_time (clock w) (snd (can_proceed (clock w) (rate_limiter w))))
                    then [(clock w, TimeSleep
                            (fst (wait_time (clock w)
                                   (snd (can_proceed (clock w) (rate_limiter w))))))]
                    else [])\<rparr>"
proof -
  let ?kept = "filter (\<lambda>t. clock w - t < real_of_int (time_window (rate_limiter w)))
                 (requests (rate_limiter w))"
  have cp: "can_proceed (clock w) (rate_limiter w) = (False, (rate_limiter w)\<lparr>requests := ?kept\<rparr>)"
    using assms by (simp add: can_proceed_def Let_def split: if_splits)
  obtain wt where wt: "wait_time (clock w) ((rate_limiter w)\<lparr>requests := ?kept\<rparr>)
                         = (wt, (rate_limiter w)\<lparr>requests := ?kept\<rparr>)"
    using wait_time_state [of "clock w" "(rate_limiter w)\<lparr>requests := ?kept\<rparr>"]
    by (metis prod.collapse)
  have "0 \<le> wt" using wait_time_nonneg [of "clock w" "(rate_limiter w)\<lparr>requests := ?kept\<rparr>"] wt
    by simp
  then show ?thesis
    unfolding apply_rate_limit_def cp
    by (cases "0 < wt") (simp_all add: wt time_sleep_def Let_def)
qed


lemma refused_wait_positive:
  assumes "\<not> fst (can_proceed now rl)" and "0 < max_requests rl"
  shows "0 < fst (wait_time now (snd (can_proceed now rl)))"
proof -
  let ?W = "real_of_int (time_window rl)"
  let ?kept = "filter (\<lambda>t. now - t < ?W) (requests rl)"
  have cp: "can_proceed now rl = (False, rl\<lparr>requests := ?kept\<rparr>)"
    using assms(1) by (simp add: can_proceed_def Let_def split: if_splits)
  have "\<not> int (length ?kept) < max_requests rl"
    using assms(1) by (simp add: can_proceed_def Let_def split: if_splits)
  with assms(2) have "?kept \<noteq> []" by auto
  then obtain r rs where kept: "?kept = r # rs" by (cases ?kept) auto
  have "fold min rs r \<in> set ?kept"
    unfolding kept fold_min_Min by (rule Min_in) simp_all
  then have "now - fold min rs r < ?W" by simp
  then show ?thesis
    by (simp add: cp wait_time_def kept)
qed

text \<open>
  Three requests through a limiter of one request per 60 seconds, each answered at
  once: the second is refused, sleeps 60 seconds and is sent unrecorded; the third
  is admitted at that same reading.
\<close>

lemma limit_one_first:
  "snd (make_request braces_codec ok_transport limit_one_client ''GET'' ''/a'' None None None
          (world_of (APIClient_init ''http://x'' 30 3 1 None)))
   = \<lparr>clock = 0, rate_limiter = \<lparr>max_requests = 1, time_window = 60, requests = [0]\<rparr>,
      calls = 1,
      trace = [(0, Transport (build_request limit_one_client ''GET'' ''/a'' None None None))]\<rparr>"
  by (simp add: eval_defs ok_transport_def limit_one_client_def)


lemma limit_one_second:
  "snd (make_request braces_codec ok_transport limit_one_client ''GET'' ''/a'' None None None
     \<lparr>clock = 0, rate_limiter = \<lparr>max_requests = 1, time_window = 60, requests = [0]\<rparr>,
      calls = 1,
      trace = [(0, Transport (build_request limit_one_client ''GET'' ''/a'' None None None))]\<rparr>)
   = \<lparr>clock = 60, rate_limiter = \<lparr>max_requests = 1, time_window = 60, requests = [0]\<rparr>,
      calls = 2,
      trace = [(0, Transport (build_request limit_one_client ''GET'' ''/a'' None None None)),
               (0, TimeSleep 60),
               (60, Transport (build_request limit_one_client ''GET'' ''/a'' None None None))]\<rparr>"
  by (simp add: eval_defs ok_transport_def limit_one_client_def)

lemma limit_one_third:
  "snd (make_request braces_codec ok_transport limit_one_client ''GET'' ''/a'' None None None
     \<lparr>clock = 60, rate_limiter = \<lparr>max_requests = 1, time_window = 60, requests = [0]\<rparr>,
      calls = 2,
      trace = [(0, Transport (build_request limit_one_client ''GET'' ''/a'' None None None)),
               (0, TimeSleep 60),
               (60, Transport (build_request limit_one_client ''GET'' ''/a'' None None None))]\<rparr>)
   = \<lparr>clock = 60, rate_limiter = \<lparr>max_requests = 1, time_window = 60, requests = [60]\<rparr>,
      calls = 3,
      trace = [(0, Transport (build_request limit_one_client ''GET'' ''/a'' None None None)),
               (0, TimeSleep 60),
               (60, Transport (build_request limit_one_client ''GET'' ''/a'' None None None)),
               (60, Transport (build_request limit_one_client ''GET'' ''/a'' None None None))]\<rparr>"
  by (simp add: eval_defs ok_transport_def limit_one_client_def)

lemma three_requests_limit_one:
  "let w1 = snd (make_request braces_codec ok_transport limit_one_client
                   ''GET'' ''/a'' None None None (world_of (APIClient_init ''http://x'' 30 3 1 None)));
       w2 = snd (make_request braces_codec ok_transport limit_one_client
                   ''GET'' ''/a'' None None None w1);
       w3 = snd (make_request braces_codec ok_transport limit_one_client
                   ''GET'' ''/a'' None None None w2)
   in transports_in_window 60 60 (trace w3) = 2
    \<and> max_requests (rate_limiter w3) = 1
    \<and> time_window (rate_limiter w3) = 60"
  unfolding Let_def limit_one_first limit_one_second limit_one_third
  by (simp add: transports_in_window_def)

text \<open>
  Claim C10. When \<open>can_proceed\<close> refuses, the rate-limit step suspends for
  \<open>wait_time()\<close> (one \<open>time.sleep\<close> of that length, which is positive whenever
  \<open>max_requests > 0\<close>; no call when it is 0), and the attempt goes on to its transport
  call: the limiter is not asked again and keeps only its pruned timestamps, so the
  call is never recorded. Hence more than \<open>max_requests\<close> transport calls can fall
  into one window: with a limit of 1, two of the three requests above are sent at
  the reading 60.
\<close>

theorem refused_attempt_not_counted:
  assumes "\<not> fst (can_proceed (clock w) (rate_limiter w))"
  shows "(let wt = fst (wait_time (clock w) (snd (can_proceed (clock w) (rate_limiter w))));
             sleeps = (if 0 < wt then [(clock w, TimeSleep wt)] else []);
             w' = snd (try_attempt lib tr c rq st w)
         in trace (apply_rate_limit w) = trace w @ sleeps
          \<and> clock (apply_rate_limit w) = clock w + wt
          \<and> trace w' = trace w @ sleeps @ [(clock w + wt, Transport rq)]
          \<and> calls w' = Suc (calls w)
          \<and> requests (rate_limiter w')
              = filter (\<lambda>t. clock w - t < real_of_int (time_window (rate_limiter w)))
                  (requests (rate_limiter w))
          \<and> (0 < max_requests (rate_limiter w) \<longrightarrow> 0 < wt))
     \<and> (let w1 = snd (make_request braces_codec ok_transport limit_one_client
                   ''GET'' ''/a'' None None None (world_of (APIClient_init ''http://x'' 30 3 1 None)));
             w2 = snd (make_request braces_codec ok_transport limit_one_client
                   ''GET'' ''/a'' None None None w1);
             w3 = snd (make_request braces_codec ok_transport limit_one_client
                   ''GET'' ''/a'' None None None w2)
         in transports_in_window 60 60 (trace w3) = 2
          \<and> max_requests (rate_limiter w3) = 1
          \<and> time_window (rate_limiter w3) = 60)"
proof -
  note arl = apply_rate_limit_refused [OF assms]
  have a: "trace (snd (try_attempt lib tr c rq st w))
             = trace (apply_rate_limit w) @ [(clock (apply_rate_limit w), Transport rq)]"
    and b: "rate_limiter (snd (try_attempt lib tr c rq st w)) = rate_limiter (apply_rate_limit w)"
    by (simp_all add: try_attempt_def Let_def split: outcome.splits sum.splits)
  have pos: "0 < max_requests (rate_limiter w) \<longrightarrow>
           0 < fst (wait_time (clock w) (snd (can_proceed (clock w) (rate_limiter w))))"
    using refused_wait_positive [OF assms] by simp
  have general:
    "let wt = fst (wait_time (clock w) (snd (can_proceed (clock w) (rate_limiter w))));
         sleeps = (if 0 < wt then [(clock w, TimeSleep wt)] else []);
         w' = snd (try_attempt lib tr c rq st w)
     in trace (apply_rate_limit w) = trace w @ sleeps
      \<and> clock (apply_rate_limit w) = clock w + wt
      \<and> trace w' = trace w @ sleeps @ [(clock w + wt, Transport rq)]
      \<and> calls w' = Suc (calls w)
      \<and> requests (rate_limiter w')
          = filter (\<lambda>t. clock w - t < real_of_int (time_window (rate_limiter w)))
              (requests (rate_limiter w))
      \<and> (0 < max_requests (rate_limiter w) \<longrightarrow> 0 < wt)"
    unfolding Let_def a b
    using pos by (simp add: arl)
  from general three_requests_limit_one show ?thesis by (rule conjI)
qed

theorem refused_attempt_not_counted_witness:
  "trace (snd (try_attempt braces_codec
       (always (Responds \<lparr>status = 200, resp_headers = [], body = ''ok''\<rparr> 0))
       (client_of (APIClient_init ''http://x'' 30 3 1 None))
       (build_request (client_of (APIClient_init ''http://x'' 30 3 1 None))
          ''GET'' ''/a'' None None None) 0
       \<lparr>clock = 10, rate_limiter = \<lparr>max_requests = 1, time_window = 60, requests = [0]\<rparr>,
         calls = 1, trace = []\<rparr>))
   = [(10, TimeSleep 50),
      (60, Transport (build_request (client_of (APIClient_init ''http://x'' 30 3 1 None))
          ''GET'' ''/a'' None None None))]
   \<and> requests (rate_limiter (snd (try_attempt braces_codec
       (always (Responds \<lparr>status = 200, resp_headers = [], body = ''ok''\<rparr> 0))
       (client_of (APIClient_init ''http://x'' 30 3 1 None))
       (build_request (client_of (APIClient_init ''http://x'' 30 3 1 None))
          ''GET'' ''/a'' None None None) 0
       \<lparr>clock = 10, rate_limiter = \<lparr>max_requests = 1, time_window = 60, requests = [0]\<rparr>,
         calls = 1, trace = []\<rparr>))) = [0]"
  using refused_attempt_not_counted [of
       "\<lparr>clock = 10, rate_limiter = \<lparr>max_requests = 1, time_window = 60, requests = [0]\<rparr>,
         calls = 1, trace = []\<rparr>" braces_codec
       "always (Responds \<lparr>status = 200, resp_headers = [], body = ''ok''\<rparr> 0)"
       "client_of (APIClient_init ''http://x'' 30 3 1 None)"
       "build_request (client_of (APIClient_init ''http://x'' 30 3 1 None))
          ''GET'' ''/a'' None None None" 0]
  by (simp add: can_proceed_def wait_time_def Let_def)

end
